theory Spec2Isabelle
  imports Main "HOL-Library.Word"
begin

unbundle bit_operations_syntax

section \<open>Errors, time and the task's own state\<close>

text \<open>
  The temporary-file cleanup task of \<^verbatim>\<open>internal/task/task_file_session_temp_clean.go\<close>.
  Go's \<^verbatim>\<open>error\<close> values that can reach the task: a path error carrying the operating
  system's error number, and the two sentinel values of \<^verbatim>\<open>path/filepath\<close>. A nil
  \<^verbatim>\<open>error\<close> is \<open>None\<close>. \<open>NilFileInfo\<close> stands for the panic of calling a method on a nil
  \<^verbatim>\<open>os.FileInfo\<close>.
\<close>

datatype errno = ENOENT | EACCES | EPERM | ENOTDIR | ENOTEMPTY | EBUSY | EIO | ENOSPC | EROFS

datatype error = PathError errno | SkipDir | SkipAll | NilFileInfo

definition IsNotExist :: "error option \<Rightarrow> bool" where
  "IsNotExist err = (err = Some (PathError ENOENT))"

text \<open>
  \<^verbatim>\<open>time.Time\<close> and \<^verbatim>\<open>time.Duration\<close> count nanoseconds; the instants compared here are
  wall-clock readings (a modification time has no monotonic part), so an instant is the
  integer number of nanoseconds since the epoch.
\<close>

definition Hour :: int where
  "Hour = 3600000000000"

definition Add :: "int \<Rightarrow> int \<Rightarrow> int" where
  "Add t d = t + d"

definition Before :: "int \<Rightarrow> int \<Rightarrow> bool" where
  "Before t u = (t < u)"

record FileSessionTempCleanTask =
  firstRun :: bool

definition Name :: "FileSessionTempCleanTask \<Rightarrow> string" where
  "Name t = ''FileSessionTempClean''"



definition NewFileSessionTempCleanTask :: FileSessionTempCleanTask where
  "NewFileSessionTempCleanTask = \<lparr>firstRun = True\<rparr>"

text \<open>The context handed to \<^verbatim>\<open>Run\<close>: whether its \<^verbatim>\<open>Done\<close> channel is closed.\<close>

record Context =
  cancelled :: bool

section \<open>The filesystem under the temporary directory\<close>

text \<open>
  A directory entry as the task meets it. \<open>Fails n e\<close> is a name on which \<^verbatim>\<open>lstat\<close> answers
  the error \<open>e\<close>. \<open>File n m u\<close> is anything for which \<^verbatim>\<open>lstat\<close> answers a non-directory (a
  regular file, or a symbolic link, which neither the walk nor a removal follows) with
  modification time \<open>m\<close>; \<open>u\<close> is what the system answers when it is unlinked (\<open>None\<close>: it
  is removed). \<open>Dir n p m r es\<close> is a directory with mode bits \<open>p\<close> (an \<^verbatim>\<open>os.FileMode\<close>, 32
  bits) and modification time \<open>m\<close>; \<open>r\<close> is what reading its listing answers, \<open>es\<close> its
  entries in the order \<^verbatim>\<open>readDirNames\<close> returns them (sorted by name).
\<close>

datatype entry =
  Fails string errno
| File string int "error option"
| Dir string "32 word" int "error option" "entry list"

fun name :: "entry \<Rightarrow> string" where
  "name (Fails n e) = n"
| "name (File n m u) = n"
| "name (Dir n p m r es) = n"

record FileInfo =
  IsDir :: bool
  ModTime :: int

definition Join :: "string \<Rightarrow> string \<Rightarrow> string" where
  "Join dir n = dir @ ''/'' @ n"

text \<open>
  \<^verbatim>\<open>os.Lstat\<close> on an entry. \<open>stat_of\<close> is what \<^verbatim>\<open>os.Stat\<close> answers for a path when it
  meets the same thing (\<open>None\<close>: nothing is there) and there is no link to follow.
\<close>

fun os_Lstat :: "entry \<Rightarrow> error + FileInfo" where
  "os_Lstat (Fails n e) = Inl (PathError e)"
| "os_Lstat (File n m u) = Inr \<lparr>IsDir = False, ModTime = m\<rparr>"
| "os_Lstat (Dir n p m r es) = Inr \<lparr>IsDir = True, ModTime = m\<rparr>"

definition stat_of :: "entry option \<Rightarrow> error option" where
  "stat_of fs = (case fs of None \<Rightarrow> Some (PathError ENOENT)
     | Some e \<Rightarrow> (case os_Lstat e of Inl err \<Rightarrow> Some err | Inr info \<Rightarrow> None))"

text \<open>
  \<^verbatim>\<open>os.Remove\<close> on an entry: the error, and what is left at the path. A directory is
  removed only when it is empty.
\<close>

fun os_Remove :: "entry \<Rightarrow> error option \<times> entry option" where
  "os_Remove (Fails n e) = (Some (PathError e), Some (Fails n e))"
| "os_Remove (File n m u) = (case u of None \<Rightarrow> (None, None) | Some e \<Rightarrow> (Some e, Some (File n m u)))"
| "os_Remove (Dir n p m r es) =
     (if es = [] then (None, None) else (Some (PathError ENOTEMPTY), Some (Dir n p m r es)))"

text \<open>
  \<^verbatim>\<open>os.RemoveAll\<close>: removes what it can and returns the first error it met; a name that is
  already gone is no error. A directory whose listing cannot be read is removed only when
  it is empty.
\<close>

fun first_error :: "error option \<Rightarrow> error option \<Rightarrow> error option" where
  "first_error (Some e) err = Some e"
| "first_error None err = err"

fun cons_opt :: "'a option \<Rightarrow> 'a list \<Rightarrow> 'a list" where
  "cons_opt None xs = xs"
| "cons_opt (Some x) xs = x # xs"

fun removeAll :: "entry \<Rightarrow> error option \<times> entry option"
  and removeAllFrom :: "entry list \<Rightarrow> error option \<times> entry list" where
  "removeAll (Fails n e) =
     (if e = ENOENT then (None, None) else (Some (PathError e), Some (Fails n e)))"
| "removeAll (File n m u) =
     (case u of None \<Rightarrow> (None, None) | Some e \<Rightarrow> (Some e, Some (File n m u)))"
| "removeAll (Dir n p m r es) =
     (if es = [] then (None, None)
      else (case r of
          Some e \<Rightarrow> (Some e, Some (Dir n p m r es))
        | None \<Rightarrow>
            (case removeAllFrom es of (err, es') \<Rightarrow>
               if es' = [] then (None, None)
               else (first_error err (Some (PathError ENOTEMPTY)), Some (Dir n p m r es')))))"
| "removeAllFrom [] = (None, [])"
| "removeAllFrom (e # es) =
     (case removeAll e of (err, e') \<Rightarrow>
        (case removeAllFrom es of (err', es') \<Rightarrow> (first_error err err', cons_opt e' es')))"

definition os_RemoveAll :: "entry option \<Rightarrow> error option \<times> entry option" where
  "os_RemoveAll fs = (case fs of None \<Rightarrow> (None, None) | Some e \<Rightarrow> removeAll e)"

text \<open>
  \<^verbatim>\<open>os.MkdirAll path perm\<close>: nothing to do when a directory is already there; otherwise
  the directory is created, unless the system refuses with \<open>answer\<close>. The permission bits
  \<open>perm\<close> are those before the umask: the new directory gets the bits of \<open>perm\<close> that the
  process umask does not clear. \<open>now\<close> stamps the new directory. A non-directory in the way
  is taken for a regular file.
\<close>

definition os_MkdirAll :: "string \<Rightarrow> 32 word \<Rightarrow> 32 word \<Rightarrow> error option \<Rightarrow> int \<Rightarrow> entry option
    \<Rightarrow> error option \<times> entry option" where
  "os_MkdirAll path perm umask answer now fs =
     (case fs of
        Some (Dir n p m r es) \<Rightarrow> (None, fs)
      | Some (File n m u) \<Rightarrow> (Some (PathError ENOTDIR), fs)
      | Some (Fails n e) \<Rightarrow>
          (if e = ENOENT
           then (case answer of
               None \<Rightarrow> (None, Some (Dir path (perm AND NOT umask) now None []))
             | Some err \<Rightarrow> (Some err, fs))
           else (Some (PathError e), fs))
      | None \<Rightarrow>
          (case answer of
             None \<Rightarrow> (None, Some (Dir path (perm AND NOT umask) now None []))
           | Some err \<Rightarrow> (Some err, fs)))"

section \<open>Log entries and the calls that change the filesystem\<close>

datatype field = zap_String string string | zap_Int string nat | zap_Error error

datatype level = InfoLevel | WarnLevel | ErrorLevel

datatype log_entry = Log level string "field list"

datatype fs_call = RemoveAllCall string | MkdirAllCall string "32 word" | RemoveCall string

text \<open>
  What the closure passed to \<^verbatim>\<open>filepath.Walk\<close> captures and changes: the two counters,
  and, for the record, the log entries written and the removals asked of the system.
\<close>

record sweep =
  deletedCount :: nat
  errorCount :: nat
  logged :: "log_entry list"
  calls :: "fs_call list"

section \<open>The walk\<close>

text \<open>
  The closure of \<^verbatim>\<open>Run\<close>. It is handed the path, the entry at that path (its handle for
  \<^verbatim>\<open>os.Remove\<close>), the \<^verbatim>\<open>FileInfo\<close> (nil when \<^verbatim>\<open>lstat\<close> failed) and the error of the walk; it
  returns its error, what is left at the path, and the updated captured variables.
\<close>

definition walkFn :: "FileSessionTempCleanTask \<Rightarrow> int \<Rightarrow> string \<Rightarrow> entry \<Rightarrow> FileInfo option \<Rightarrow> error option
    \<Rightarrow> sweep \<Rightarrow> error option \<times> entry option \<times> sweep" where
  "walkFn t twoHoursAgo path node info err s =
     (case err of
        Some e \<Rightarrow>
          (None, Some node,
           s\<lparr>logged := logged s @
               [Log WarnLevel ''task log''
                  [zap_String ''task'' (Name t), zap_String ''type'' ''loopRun'',
                   zap_String ''path'' path, zap_String ''msg'' ''error accessing path'',
                   zap_Error e]]\<rparr>)
      | None \<Rightarrow>
          (case info of
             None \<Rightarrow> (Some NilFileInfo, Some node, s)
           | Some i \<Rightarrow>
               if IsDir i then (None, Some node, s)
               else if Before (ModTime i) twoHoursAgo then
                 (case os_Remove node of
                    (Some removeErr, node') \<Rightarrow>
                      (None, node',
                       s\<lparr>logged := logged s @
                           [Log WarnLevel ''task log''
                              [zap_String ''task'' (Name t), zap_String ''type'' ''loopRun'',
                               zap_String ''path'' path,
                               zap_String ''msg'' ''failed to remove old file'',
                               zap_Error removeErr]],
                         calls := calls s @ [RemoveCall path],
                         errorCount := errorCount s + 1\<rparr>)
                  | (None, node') \<Rightarrow>
                      (None, node',
                       s\<lparr>calls := calls s @ [RemoveCall path],
                         deletedCount := deletedCount s + 1\<rparr>))
               else (None, Some node, s)))"

text \<open>
  \<^verbatim>\<open>filepath.walk\<close> and its loop over the names of a directory, with this closure. The
  first equation is the caller's branch for a failed \<^verbatim>\<open>lstat\<close>. \<open>stops\<close> is the test after
  each name: any error ends the loop, except \<^verbatim>\<open>SkipDir\<close> from a directory or from the
  closure called with an \<^verbatim>\<open>lstat\<close> error.
\<close>

fun stops :: "entry \<Rightarrow> error option \<Rightarrow> bool" where
  "stops (File n m u) err = (err \<noteq> None)"
| "stops e err = (err \<noteq> None \<and> err \<noteq> Some SkipDir)"

fun walk :: "FileSessionTempCleanTask \<Rightarrow> int \<Rightarrow> string \<Rightarrow> entry \<Rightarrow> sweep \<Rightarrow> error option \<times> entry option \<times> sweep"
  and walk_names :: "FileSessionTempCleanTask \<Rightarrow> int \<Rightarrow> string \<Rightarrow> entry list \<Rightarrow> sweep
    \<Rightarrow> error option \<times> entry list \<times> sweep" where
  "walk t tha path (Fails n e) s =
     walkFn t tha path (Fails n e) None (Some (PathError e)) s"
| "walk t tha path (File n m u) s =
     walkFn t tha path (File n m u) (Some \<lparr>IsDir = False, ModTime = m\<rparr>) None s"
| "walk t tha path (Dir n p m r es) s =
     (case walkFn t tha path (Dir n p m r es) (Some \<lparr>IsDir = True, ModTime = m\<rparr>) r s of
        (err1, node', s1) \<Rightarrow>
          if r \<noteq> None \<or> err1 \<noteq> None then (err1, node', s1)
          else (case node' of
               None \<Rightarrow> (None, None, s1)
             | Some d \<Rightarrow>
                 (case walk_names t tha path es s1 of
                    (err, es', s2) \<Rightarrow> (err, Some (Dir n p m r es'), s2))))"
| "walk_names t tha path [] s = (None, [], s)"
| "walk_names t tha path (e # es) s =
     (case walk t tha (Join path (name e)) e s of
        (err, e', s1) \<Rightarrow>
          if stops e err then (err, cons_opt e' es, s1)
          else (case walk_names t tha path es s1 of
               (err', es', s2) \<Rightarrow> (err', cons_opt e' es', s2)))"

text \<open>\<^verbatim>\<open>filepath.Walk\<close>: \<^verbatim>\<open>lstat\<close> on the root, then the walk; the two sentinels become nil.\<close>

definition Walk :: "FileSessionTempCleanTask \<Rightarrow> int \<Rightarrow> string \<Rightarrow> entry option \<Rightarrow> sweep
    \<Rightarrow> error option \<times> entry option \<times> sweep" where
  "Walk t tha root fs s =
     (case (case fs of None \<Rightarrow> walk t tha root (Fails root ENOENT) s | Some e \<Rightarrow> walk t tha root e s) of
        (err, fs', s') \<Rightarrow>
          (if err = Some SkipDir \<or> err = Some SkipAll then None else err,
           (case fs of None \<Rightarrow> None | Some e \<Rightarrow> fs'), s'))"

section \<open>Run\<close>

text \<open>
  What an invocation finds: the configured path, the clock, what \<^verbatim>\<open>os.Stat\<close> answers for
  the temporary directory at the existence check, what the path resolves to for the calls
  that come after the check, what the system answers to creating a directory there, and
  the process umask. \<^verbatim>\<open>os.Stat\<close> is a call of its own, made before the others, and it
  follows a symbolic link where they do not, so its answer is not tied to the tree.
\<close>

record world =
  TempPath :: string
  now :: int
  stat_answer :: "error option"
  root :: "entry option"
  mkdir_answer :: "error option"
  umask :: "32 word"

definition os_Stat :: "world \<Rightarrow> error option" where
  "os_Stat w = stat_answer w"

text \<open>
  What an invocation leaves: the returned error, the task's state, what the temporary
  directory resolves to afterwards, the log entries written and the mutating calls made.
  The permission bits \<^verbatim>\<open>0754\<close> of the source are the number 492.
\<close>

record result =
  ret :: "error option"
  task :: FileSessionTempCleanTask
  disk :: "entry option"
  written :: "log_entry list"
  made :: "fs_call list"

definition tempDir :: "world \<Rightarrow> string" where
  "tempDir w = (if TempPath w = [] then ''storage/temp'' else TempPath w)"

definition twoHoursAgo :: "world \<Rightarrow> int" where
  "twoHoursAgo w = Add (now w) (- 2 * Hour)"

definition startup_failed :: "FileSessionTempCleanTask \<Rightarrow> string \<Rightarrow> error \<Rightarrow> log_entry" where
  "startup_failed t path e =
     Log ErrorLevel ''task log''
       [zap_String ''task'' (Name t), zap_String ''type'' ''startupRun'',
        zap_String ''path'' path, zap_String ''msg'' ''failed'', zap_Error e]"

definition loop_success :: "FileSessionTempCleanTask \<Rightarrow> nat \<Rightarrow> nat \<Rightarrow> log_entry" where
  "loop_success t d e =
     Log InfoLevel ''task log''
       [zap_String ''task'' (Name t), zap_String ''type'' ''loopRun'',
        zap_Int ''deletedCount'' d, zap_Int ''errorCount'' e, zap_String ''msg'' ''success'']"

definition Run :: "Context \<Rightarrow> FileSessionTempCleanTask \<Rightarrow> world \<Rightarrow> result" where
  "Run ctx t w =
     (let err = os_Stat w in
      if IsNotExist err then
        \<lparr>ret = err, task = t, disk = root w,
         written = [Log ErrorLevel ''task log''
           [zap_String ''task'' (Name t), zap_String ''type'' ''run'',
            zap_String ''path'' (tempDir w),
            zap_String ''reason'' ''temp directory does not exist'',
            zap_String ''msg'' ''failed'']],
         made = []\<rparr>
      else if firstRun t then
        (let t1 = t\<lparr>firstRun := False\<rparr> in
         case os_RemoveAll (root w) of
           (Some e, fs1) \<Rightarrow>
             \<lparr>ret = Some e, task = t1, disk = fs1,
              written = [startup_failed t1 (tempDir w) e],
              made = [RemoveAllCall (tempDir w)]\<rparr>
         | (None, fs1) \<Rightarrow>
             (case os_MkdirAll (tempDir w) 492 (umask w) (mkdir_answer w) (now w) fs1 of
                (Some e, fs2) \<Rightarrow>
                  \<lparr>ret = Some e, task = t1, disk = fs2,
                   written = [startup_failed t1 (tempDir w) e],
                   made = [RemoveAllCall (tempDir w), MkdirAllCall (tempDir w) 492]\<rparr>
              | (None, fs2) \<Rightarrow>
                  \<lparr>ret = None, task = t1, disk = fs2,
                   written = [Log InfoLevel ''task log''
                     [zap_String ''task'' (Name t1), zap_String ''type'' ''startupRun'',
                      zap_String ''msg'' ''success'']],
                   made = [RemoveAllCall (tempDir w), MkdirAllCall (tempDir w) 492]\<rparr>))
      else
        (case Walk t (twoHoursAgo w) (tempDir w) (root w)
                \<lparr>deletedCount = 0, errorCount = 0, logged = [], calls = []\<rparr> of
           (Some e, fs1, s) \<Rightarrow>
             \<lparr>ret = Some e, task = t, disk = fs1,
              written = logged s @
                [Log ErrorLevel ''task log''
                   [zap_String ''task'' (Name t), zap_String ''type'' ''loopRun'',
                    zap_String ''path'' (tempDir w), zap_String ''msg'' ''failed'',
                    zap_Error e]],
              made = calls s\<rparr>
         | (None, fs1, s) \<Rightarrow>
             \<lparr>ret = None, task = t, disk = fs1,
              written = logged s @ [loop_success t (deletedCount s) (errorCount s)],
              made = calls s\<rparr>))"


section \<open>Views of the tree used to state the properties\<close>

text \<open>
  Every non-directory below an entry: its path, its modification time, what the system
  answers to unlinking it, and whether the walk reaches it (every directory above it can
  be listed).
\<close>

record file_view =
  fpath :: string
  mtime :: int
  unlink :: "error option"
  reached :: bool

fun files :: "bool \<Rightarrow> string \<Rightarrow> entry \<Rightarrow> file_view list"
  and files_names :: "bool \<Rightarrow> string \<Rightarrow> entry list \<Rightarrow> file_view list" where
  "files v path (Fails n e) = []"
| "files v path (File n m u) = [\<lparr>fpath = path, mtime = m, unlink = u, reached = v\<rparr>]"
| "files v path (Dir n p m r es) = files_names (v \<and> r = None) path es"
| "files_names v path [] = []"
| "files_names v path (e # es) = files v (Join path (name e)) e @ files_names v path es"

definition tree_files :: "string \<Rightarrow> entry option \<Rightarrow> file_view list" where
  "tree_files path fs = (case fs of None \<Rightarrow> [] | Some e \<Rightarrow> files True path e)"

text \<open>The files the sweep asks the system to remove, and those that then are removed.\<close>

definition stale :: "int \<Rightarrow> file_view \<Rightarrow> bool" where
  "stale threshold f = (reached f \<and> mtime f < threshold)"

definition removed :: "int \<Rightarrow> file_view \<Rightarrow> bool" where
  "removed threshold f = (stale threshold f \<and> unlink f = None)"

definition refused :: "int \<Rightarrow> file_view \<Rightarrow> bool" where
  "refused threshold f = (stale threshold f \<and> unlink f \<noteq> None)"

definition is_wipe :: "fs_call \<Rightarrow> bool" where
  "is_wipe c = (case c of RemoveCall p \<Rightarrow> False | _ \<Rightarrow> True)"

section \<open>Concrete tasks, contexts and worlds\<close>

definition steady :: FileSessionTempCleanTask where
  "steady = \<lparr>firstRun = False\<rparr>"

definition live_ctx :: Context where
  "live_ctx = \<lparr>cancelled = False\<rparr>"

definition cancelled_ctx :: Context where
  "cancelled_ctx = \<lparr>cancelled = True\<rparr>"

text \<open>
  A world with the path left unset (so the directory is \<^verbatim>\<open>storage/temp\<close>), the clock at
  three hours after the epoch (so the threshold is one hour after it), an existence check
  that meets the tree as it is, a system that lets the directory be created, and the
  umask \<^verbatim>\<open>022\<close> (the number 18).
\<close>

definition world_of :: "entry option \<Rightarrow> world" where
  "world_of fs =
     \<lparr>TempPath = [], now = 3 * Hour, stat_answer = stat_of fs, root = fs, mkdir_answer = None,
      umask = 18\<rparr>"

definition boundary_tree :: entry where
  "boundary_tree =
     Dir ''temp'' 492 0 None
       [File ''at'' Hour None,
        Fails ''ghost'' ENOENT,
        File ''locked'' (Hour - 1) (Some (PathError EACCES)),
        File ''older'' (Hour - 1) None,
        Dir ''sealed'' 448 0 (Some (PathError EACCES)) [File ''hidden'' 0 None]]"


definition locked_tree :: entry where
  "locked_tree = Dir ''temp'' 492 0 None [File ''a'' 0 (Some (PathError EACCES))]"

definition pair_tree :: entry where
  "pair_tree = Dir ''temp'' 492 0 None [File ''a'' 0 None, File ''b'' 0 None]"

definition unreadable_tree :: entry where
  "unreadable_tree = Dir ''temp'' 492 0 (Some (PathError EACCES)) [File ''a'' 0 None]"

text \<open>
  A directory that is there for \<^verbatim>\<open>os.Stat\<close> and for the walk's \<^verbatim>\<open>lstat\<close>, and gone when the
  walk comes to list it.
\<close>

definition vanished_tree :: entry where
  "vanished_tree = Dir ''temp'' 492 0 (Some (PathError ENOENT)) []"



text \<open>
  The world of a tree when the existence check meets permission denied while the calls
  that follow the check meet the tree: the permissions on the way to the path changed in
  between, or the path is a symbolic link whose target cannot be reached and the tree is
  the link itself, as in \<open>blocked_link\<close>.
\<close>

definition blocked_link :: entry where
  "blocked_link = File ''temp'' 0 None"

definition denied_world :: "entry option \<Rightarrow> world" where
  "denied_world fs = (world_of fs)\<lparr>stat_answer := Some (PathError EACCES)\<rparr>"

section \<open>The walk never fails, and what it does to the tree\<close>

lemma walkFn_ret:
  "err \<noteq> None \<or> info \<noteq> None \<Longrightarrow> fst (walkFn t tha path node info err s) = None"
  by (auto simp: walkFn_def split: option.splits prod.splits)

lemma walk_ret:
  "fst (walk t tha path e s) = None"
  "fst (walk_names t tha path es s) = None"
proof (induction t tha path e s and t tha path es s rule: walk_walk_names.induct)
  case (1 t tha path n e s)
  then show ?case by (simp add: walkFn_ret)
next
  case (2 t tha path n m u s)
  then show ?case by (simp add: walkFn_ret)
next
  case (3 t tha path n p m r es s)
  then show ?case 
    using walkFn_ret[of r "Some \<lparr>IsDir = True, ModTime = m\<rparr>" t tha path "Dir n p m r es" s]
    by (auto split: prod.splits option.splits)
next
  case (4 t tha path s)
  then show ?case by simp
next
  case (5 t tha path e es s)
  then show ?case by (auto split: prod.splits)
qed

lemma walk_nil: "walk t tha path e s = (err, r) \<Longrightarrow> err = None"
  using walk_ret(1)[of t tha path e s] by simp

lemma walk_names_nil: "walk_names t tha path es s = (err, r) \<Longrightarrow> err = None"
  using walk_ret(2)[of t tha path es s] by simp

lemma stops_None [simp]: "stops e None = False"
  by (cases e) simp_all

lemma files_unreached:
  "f \<in> set (files False path e) \<Longrightarrow> \<not> reached f"
  "f \<in> set (files_names False path es) \<Longrightarrow> \<not> reached f"
  by (induction False path e and False path es arbitrary: f and f rule: files_files_names.induct) auto

lemma filter_unreached [simp]:
  "filter (stale tha) (files_names False path es) = []"
  "filter (removed tha) (files_names False path es) = []"
  "filter (refused tha) (files_names False path es) = []"
  by (auto simp: filter_empty_conv stale_def removed_def refused_def dest: files_unreached)

lemma filter_unreached_id [simp]:
  "filter (\<lambda>f. \<not> removed tha f) (files_names False path es) = files_names False path es"
  by (auto simp: filter_id_conv stale_def removed_def dest: files_unreached)




lemma walkFn_err:
  "walkFn t tha path node info (Some e) s =
     (None, Some node,
      s\<lparr>logged := logged s @
          [Log WarnLevel ''task log''
             [zap_String ''task'' (Name t), zap_String ''type'' ''loopRun'',
              zap_String ''path'' path, zap_String ''msg'' ''error accessing path'',
              zap_Error e]]\<rparr>)"
  by (simp add: walkFn_def)

lemma walkFn_dir:
  "walkFn t tha path node (Some \<lparr>IsDir = True, ModTime = m\<rparr>) None s = (None, Some node, s)"
  by (simp add: walkFn_def)

lemma walkFn_fresh:
  "\<not> m < tha \<Longrightarrow>
   walkFn t tha path node (Some \<lparr>IsDir = False, ModTime = m\<rparr>) None s = (None, Some node, s)"
  by (simp add: walkFn_def Before_def)

lemma walkFn_removed:
  "m < tha \<Longrightarrow>
   walkFn t tha path (File n m None) (Some \<lparr>IsDir = False, ModTime = m\<rparr>) None s =
     (None, None, s\<lparr>calls := calls s @ [RemoveCall path], deletedCount := deletedCount s + 1\<rparr>)"
  by (simp add: walkFn_def Before_def)

lemma walkFn_refused:
  "m < tha \<Longrightarrow>
   walkFn t tha path (File n m (Some e)) (Some \<lparr>IsDir = False, ModTime = m\<rparr>) None s =
     (None, Some (File n m (Some e)),
      s\<lparr>logged := logged s @
          [Log WarnLevel ''task log''
             [zap_String ''task'' (Name t), zap_String ''type'' ''loopRun'',
              zap_String ''path'' path, zap_String ''msg'' ''failed to remove old file'',
              zap_Error e]],
        calls := calls s @ [RemoveCall path],
        errorCount := errorCount s + 1\<rparr>)"
  by (simp add: walkFn_def Before_def)

lemma walk_File_effect:
  "walk t tha path (File n m u) s = (err, e', s') \<Longrightarrow>
     (\<forall>x. e' = Some x \<longrightarrow> name x = n) \<and>
     calls s' = calls s @ map (\<lambda>f. RemoveCall (fpath f)) (filter (stale tha) (files True path (File n m u))) \<and>
     deletedCount s' = deletedCount s + length (filter (removed tha) (files True path (File n m u))) \<and>
     errorCount s' = errorCount s + length (filter (refused tha) (files True path (File n m u))) \<and>
     tree_files path e' = filter (\<lambda>f. \<not> removed tha f) (files True path (File n m u))"
proof (cases "m < tha")
  case False
  assume "walk t tha path (File n m u) s = (err, e', s')"
  with False show ?thesis
    by (auto simp: walkFn_fresh tree_files_def stale_def removed_def refused_def)
next
  case True
  assume w: "walk t tha path (File n m u) s = (err, e', s')"
  show ?thesis
  proof (cases u)
    case None
    with True w show ?thesis
      by (auto simp: walkFn_removed tree_files_def stale_def removed_def refused_def)
  next
    case (Some e)
    with True w show ?thesis
      by (auto simp: walkFn_refused tree_files_def stale_def removed_def refused_def)
  qed
qed


lemma walk_effect:
  "walk t tha path e s = (err, e', s') \<Longrightarrow>
     (\<forall>x. e' = Some x \<longrightarrow> name x = name e) \<and>
     calls s' = calls s @ map (\<lambda>f. RemoveCall (fpath f)) (filter (stale tha) (files True path e)) \<and>
     deletedCount s' = deletedCount s + length (filter (removed tha) (files True path e)) \<and>
     errorCount s' = errorCount s + length (filter (refused tha) (files True path e)) \<and>
     tree_files path e' = filter (\<lambda>f. \<not> removed tha f) (files True path e)"
  "walk_names t tha path es s = (err, es', s') \<Longrightarrow>
     calls s' = calls s @ map (\<lambda>f. RemoveCall (fpath f)) (filter (stale tha) (files_names True path es)) \<and>
     deletedCount s' = deletedCount s + length (filter (removed tha) (files_names True path es)) \<and>
     errorCount s' = errorCount s + length (filter (refused tha) (files_names True path es)) \<and>
     files_names True path es' = filter (\<lambda>f. \<not> removed tha f) (files_names True path es)"
proof (induction t tha path e s and t tha path es s arbitrary: err e' s' and err es' s' rule: walk_walk_names.induct)
  case (1 t tha path n e s)
  then show ?case by (simp add: walkFn_err tree_files_def) auto
next
  case (2 t tha path n m u s)
  then show ?case using walk_File_effect[of t tha path n m u s err e' s'] by simp
next
  case (3 t tha path n p m r es s)
  show ?case
  proof (cases r)
    case None
    obtain es2 s2 where wn: "walk_names t tha path es s = (None, es2, s2)"
      using walk_names_nil by (metis prod_cases3)
    have cb: "(None, Some (Dir n p m r es), s) =
        walkFn t tha path (Dir n p m r es) (Some \<lparr>IsDir = True, ModTime = m\<rparr>) r s"
      using None by (simp add: walkFn_dir)
    have res: "e' = Some (Dir n p m r es2)" "s' = s2"
      using 3(2) None wn by (simp_all add: walkFn_dir)
    have ih: "calls s2 = calls s @ map (\<lambda>f. RemoveCall (fpath f)) (filter (stale tha) (files_names True path es)) \<and>
     deletedCount s2 = deletedCount s + length (filter (removed tha) (files_names True path es)) \<and>
     errorCount s2 = errorCount s + length (filter (refused tha) (files_names True path es)) \<and>
     files_names True path es2 = filter (\<lambda>f. \<not> removed tha f) (files_names True path es)"
      using 3(1)[OF cb refl _ refl wn] None by simp
    show ?thesis using ih res None by (simp add: tree_files_def)
  next
    case (Some a)
    with 3(2) have "e' = Some (Dir n p m r es)" "calls s' = calls s"
      "deletedCount s' = deletedCount s" "errorCount s' = errorCount s"
      by (auto simp add: walkFn_err)
    with Some show ?thesis by (simp add: tree_files_def)
  qed
next
  case (4 t tha path s)
  then show ?case by simp
next
  case (5 t tha path e es s)
  obtain e1 s1 where w: "walk t tha (Join path (name e)) e s = (None, e1, s1)"
    using walk_nil by (metis prod_cases3)
  obtain es2 s2 where wn: "walk_names t tha path es s1 = (None, es2, s2)"
    using walk_names_nil by (metis prod_cases3)
  from 5(3) w wn have res: "es' = cons_opt e1 es2" "s' = s2" by simp_all
  note A = 5(1)[OF w]
  have B: "calls s2 = calls s1 @ map (\<lambda>f. RemoveCall (fpath f)) (filter (stale tha) (files_names True path es)) \<and>
     deletedCount s2 = deletedCount s1 + length (filter (removed tha) (files_names True path es)) \<and>
     errorCount s2 = errorCount s1 + length (filter (refused tha) (files_names True path es)) \<and>
     files_names True path es2 = filter (\<lambda>f. \<not> removed tha f) (files_names True path es)"
    using 5(2)[OF w[symmetric] refl _ wn] by simp
  have C: "files_names True path (cons_opt e1 es2) = tree_files (Join path (name e)) e1 @ files_names True path es2"
    using A by (cases e1) (simp_all add: tree_files_def)
  show ?case using A B C res by simp
qed


lemma Walk_effect:
  assumes "Walk t tha path fs s = (err, fs', s')"
  shows "err = None \<and>
     calls s' = calls s @ map (\<lambda>f. RemoveCall (fpath f)) (filter (stale tha) (tree_files path fs)) \<and>
     deletedCount s' = deletedCount s + length (filter (removed tha) (tree_files path fs)) \<and>
     errorCount s' = errorCount s + length (filter (refused tha) (tree_files path fs)) \<and>
     tree_files path fs' = filter (\<lambda>f. \<not> removed tha f) (tree_files path fs)"
proof (cases fs)
  case None
  with assms show ?thesis
    by (auto simp: Walk_def walkFn_err tree_files_def)
next
  case (Some e)
  obtain e1 s1 where w: "walk t tha path e s = (None, e1, s1)"
    using walk_nil by (metis prod_cases3)
  from assms Some w have res: "err = None" "fs' = e1" "s' = s1"
    by (simp_all add: Walk_def)
  show ?thesis using walk_effect(1)[OF w] res Some by (simp add: tree_files_def)
qed

lemma Run_sweep:
  assumes "\<not> firstRun t" "\<not> IsNotExist (os_Stat w)"
  shows "ret (Run ctx t w) = None"
    and "task (Run ctx t w) = t"
    and "made (Run ctx t w) =
      map (\<lambda>f. RemoveCall (fpath f)) (filter (stale (twoHoursAgo w)) (tree_files (tempDir w) (root w)))"
    and "tree_files (tempDir w) (disk (Run ctx t w)) =
      filter (\<lambda>f. \<not> removed (twoHoursAgo w) f) (tree_files (tempDir w) (root w))"
    and "\<exists>ws. written (Run ctx t w) = ws @
      [loop_success t (length (filter (removed (twoHoursAgo w)) (tree_files (tempDir w) (root w))))
         (length (filter (refused (twoHoursAgo w)) (tree_files (tempDir w) (root w))))]"
proof -
  obtain fs1 s1 where W: "Walk t (twoHoursAgo w) (tempDir w) (root w)
      \<lparr>deletedCount = 0, errorCount = 0, logged = [], calls = []\<rparr> = (None, fs1, s1)"
    using Walk_effect by (metis prod_cases3)
  have R: "Run ctx t w = \<lparr>ret = None, task = t, disk = fs1,
      written = logged s1 @ [loop_success t (deletedCount s1) (errorCount s1)], made = calls s1\<rparr>"
    using assms W by (simp add: Run_def)
  note E = Walk_effect[OF W]
  show "ret (Run ctx t w) = None" "task (Run ctx t w) = t" using R by simp_all
  show "made (Run ctx t w) =
      map (\<lambda>f. RemoveCall (fpath f)) (filter (stale (twoHoursAgo w)) (tree_files (tempDir w) (root w)))"
    using R E by simp
  show "tree_files (tempDir w) (disk (Run ctx t w)) =
      filter (\<lambda>f. \<not> removed (twoHoursAgo w) f) (tree_files (tempDir w) (root w))"
    using R E by simp
  show "\<exists>ws. written (Run ctx t w) = ws @
      [loop_success t (length (filter (removed (twoHoursAgo w)) (tree_files (tempDir w) (root w))))
         (length (filter (refused (twoHoursAgo w)) (tree_files (tempDir w) (root w))))]"
    using R E by simp
qed

lemma first_error_None [simp]: "first_error a b = None \<longleftrightarrow> a = None \<and> b = None"
  by (cases a) simp_all

lemma removeAll_clean:
  "fst (removeAll e) = None \<Longrightarrow> snd (removeAll e) = None"
  "fst (removeAllFrom es) = None \<Longrightarrow> snd (removeAllFrom es) = []"
proof (induction e and es rule: removeAll_removeAllFrom.induct)
  case (1 n e)
  then show ?case by (simp split: if_splits)
next
  case (2 n m u)
  then show ?case by (simp split: option.splits)
next
  case (3 n p m r es)
  then show ?case by (auto split: if_splits option.splits prod.splits)
next
  case 4
  then show ?case by simp
next
  case (5 e es)
  then show ?case
    by (cases "removeAll e"; cases "removeAllFrom es"; cases "fst (removeAll e)") auto
qed

lemma Run_steady_stays:
  assumes "\<not> firstRun t"
  shows "\<not> firstRun (task (Run ctx t w)) \<and> filter is_wipe (made (Run ctx t w)) = []"
proof (cases "IsNotExist (os_Stat w)")
  case True
  with assms show ?thesis by (simp add: Run_def)
next
  case False
  have "filter is_wipe (map (\<lambda>f. RemoveCall (fpath f)) xs) = []" for xs :: "file_view list"
    by (induction xs) (simp_all add: is_wipe_def)
  with Run_sweep(2,3)[OF assms False, of ctx] assms show ?thesis by simp
qed


section \<open>The claims\<close>

lemmas run_eval = Run_def Let_def os_Stat_def stat_of_def IsNotExist_def os_RemoveAll_def os_MkdirAll_def Walk_def
  walkFn_def tempDir_def twoHoursAgo_def Add_def Before_def Hour_def Join_def Name_def
  loop_success_def startup_failed_def tree_files_def stale_def removed_def refused_def
  world_of_def steady_def live_ctx_def NewFileSessionTempCleanTask_def

text \<open>
  C1, as the code has it: when the wipe of a first run fails (the recursive delete
  answers an error, or the delete succeeds and the recreate answers one), \<^verbatim>\<open>Run\<close> returns
  that error, but the flag has already been cleared, so the instance is in the steady
  state and its next invocation makes no wipe call, whatever it finds.
\<close>

theorem wipe_failure_leaves_first_run:
  assumes "firstRun t" and "\<not> IsNotExist (os_Stat w)"
    and "fst (os_RemoveAll (root w)) = Some e
       \<or> fst (os_RemoveAll (root w)) = None \<and> mkdir_answer w = Some e"
  shows "ret (Run ctx t w) = Some e \<and> \<not> firstRun (task (Run ctx t w))
     \<and> filter is_wipe (made (Run ctx' (task (Run ctx t w)) w')) = []"
proof -
  have A: "ret (Run ctx t w) = Some e \<and> \<not> firstRun (task (Run ctx t w))"
  proof (cases "fst (os_RemoveAll (root w))")
    case (Some a)
    with assms have "a = e" by simp
    obtain fs1 where "os_RemoveAll (root w) = (Some a, fs1)"
      using Some by (cases "os_RemoveAll (root w)") simp
    with assms \<open>a = e\<close> show ?thesis by (simp add: Run_def Let_def)
  next
    case None
    with assms have mk: "mkdir_answer w = Some e" by simp
    have "snd (os_RemoveAll (root w)) = None"
      using None removeAll_clean(1) by (cases "root w") (simp_all add: os_RemoveAll_def)
    with None have "os_RemoveAll (root w) = (None, None)"
      by (cases "os_RemoveAll (root w)") simp
    with assms mk show ?thesis by (simp add: Run_def Let_def os_MkdirAll_def)
  qed
  then show ?thesis using Run_steady_stays by simp
qed

theorem wipe_failure_leaves_first_run_witness:
  "firstRun NewFileSessionTempCleanTask
   \<and> \<not> IsNotExist (os_Stat (world_of (Some locked_tree)))
   \<and> fst (os_RemoveAll (root (world_of (Some locked_tree)))) = Some (PathError EACCES)
   \<and> ret (Run live_ctx NewFileSessionTempCleanTask (world_of (Some locked_tree))) = Some (PathError EACCES)
   \<and> \<not> firstRun (task (Run live_ctx NewFileSessionTempCleanTask (world_of (Some locked_tree))))
   \<and> filter is_wipe (made (Run live_ctx
        (task (Run live_ctx NewFileSessionTempCleanTask (world_of (Some locked_tree))))
        (world_of (Some locked_tree)))) = []"
proof -
  have h1: "firstRun NewFileSessionTempCleanTask"
    by (simp add: NewFileSessionTempCleanTask_def)
  have h2: "\<not> IsNotExist (os_Stat (world_of (Some locked_tree)))"
    by (simp add: run_eval locked_tree_def)
  have h3: "fst (os_RemoveAll (root (world_of (Some locked_tree)))) = Some (PathError EACCES)"
    by (simp add: run_eval locked_tree_def)
  show ?thesis
    using h1 h2 h3 wipe_failure_leaves_first_run [OF h1 h2 disjI1, OF h3, of live_ctx live_ctx "world_of (Some locked_tree)"]
    by simp
qed

text \<open>
  C1 as stated fails: on a first run over a directory holding a file that cannot be
  unlinked, the recursive delete answers the error, \<^verbatim>\<open>Run\<close> returns it, and the instance
  is no longer in its first-run state.
\<close>

theorem wipe_failure_counterexample:
  "firstRun NewFileSessionTempCleanTask
   \<and> os_RemoveAll (Some locked_tree) = (Some (PathError EACCES), Some locked_tree)
   \<and> ret (Run live_ctx NewFileSessionTempCleanTask (world_of (Some locked_tree))) = Some (PathError EACCES)
   \<and> firstRun (task (Run live_ctx NewFileSessionTempCleanTask (world_of (Some locked_tree)))) = False"
  by (simp add: run_eval locked_tree_def)

text \<open>
  C2 on the code: in the steady state, with a temporary directory whose listing cannot
  be read, or that vanishes between the walk's \<^verbatim>\<open>lstat\<close> and its listing, or that is gone
  altogether once the existence check has passed, or on which even \<^verbatim>\<open>lstat\<close> fails with
  permission denied, the walk cannot proceed; the closure swallows the error the walk
  hands it, \<^verbatim>\<open>filepath.Walk\<close> returns nil, and \<^verbatim>\<open>Run\<close> reports success with both counts
  zero and returns nil.
\<close>

theorem walk_failure_reported_as_success:
  "ret (Run live_ctx steady (world_of (Some unreadable_tree))) = None
   \<and> last (written (Run live_ctx steady (world_of (Some unreadable_tree)))) = loop_success steady 0 0
   \<and> disk (Run live_ctx steady (world_of (Some unreadable_tree))) = Some unreadable_tree
   \<and> ret (Run live_ctx steady (world_of (Some vanished_tree))) = None
   \<and> last (written (Run live_ctx steady (world_of (Some vanished_tree)))) = loop_success steady 0 0
   \<and> ret (Run live_ctx steady ((world_of None)\<lparr>stat_answer := None\<rparr>)) = None
   \<and> last (written (Run live_ctx steady ((world_of None)\<lparr>stat_answer := None\<rparr>))) = loop_success steady 0 0
   \<and> ret (Run live_ctx steady (world_of (Some (Fails ''temp'' EACCES)))) = None
   \<and> last (written (Run live_ctx steady (world_of (Some (Fails ''temp'' EACCES))))) = loop_success steady 0 0"
  by (simp add: run_eval unreadable_tree_def vanished_tree_def)

text \<open>
  C3, as the code has it: \<^verbatim>\<open>Run\<close> never reads its context, so an invocation with a
  cancelled context returns, writes and changes exactly what it does with a live one.
\<close>

theorem context_is_ignored:
  "Run ctx t w = Run ctx' t w"
  by (simp add: Run_def)

text \<open>
  C3 as stated fails: with a context that is already cancelled when \<^verbatim>\<open>Run\<close> is called, a
  sweep over a directory of two stale files still walks to the end, removes both and
  returns nil.
\<close>

theorem cancellation_counterexample:
  "cancelled cancelled_ctx
   \<and> ret (Run cancelled_ctx steady (world_of (Some pair_tree))) = None
   \<and> made (Run cancelled_ctx steady (world_of (Some pair_tree)))
       = [RemoveCall ''storage/temp/a'', RemoveCall ''storage/temp/b'']
   \<and> disk (Run cancelled_ctx steady (world_of (Some pair_tree))) = Some (Dir ''temp'' 492 0 None [])"
  by (simp add: run_eval pair_tree_def cancelled_ctx_def)

text \<open>
  C4, as the code has it: in a steady-state invocation that passes the existence check,
  \<^verbatim>\<open>os.Remove\<close> is called, in walk order, on exactly the non-directories that the walk
  reaches and whose modification time is strictly before now minus two hours; the files
  gone afterwards are exactly those among them whose removal the system does not refuse.
  So a reached file whose time equals the threshold stays, and one a nanosecond older is
  removed unless its removal fails.
\<close>

theorem sweep_boundary:
  assumes "\<not> firstRun t" and "\<not> IsNotExist (os_Stat w)"
  shows "made (Run ctx t w) =
       map (\<lambda>f. RemoveCall (fpath f))
         (filter (\<lambda>f. reached f \<and> mtime f < now w - 2 * Hour) (tree_files (tempDir w) (root w)))
     \<and> tree_files (tempDir w) (disk (Run ctx t w)) =
       filter (\<lambda>f. \<not> (reached f \<and> mtime f < now w - 2 * Hour \<and> unlink f = None))
         (tree_files (tempDir w) (root w))"
proof -
  have th: "twoHoursAgo w = now w - 2 * Hour"
    by (simp add: twoHoursAgo_def Add_def)
  have s: "stale (twoHoursAgo w) = (\<lambda>f. reached f \<and> mtime f < now w - 2 * Hour)"
    by (simp add: stale_def th fun_eq_iff)
  have r: "(\<lambda>f. \<not> removed (twoHoursAgo w) f)
      = (\<lambda>f. \<not> (reached f \<and> mtime f < now w - 2 * Hour \<and> unlink f = None))"
    by (simp add: removed_def stale_def th fun_eq_iff)
  show ?thesis using Run_sweep(3,4)[OF assms, of ctx] by (simp only: s r)
qed

theorem sweep_boundary_witness:
  "\<not> firstRun steady \<and> \<not> IsNotExist (os_Stat (world_of (Some boundary_tree)))
   \<and> now (world_of (Some boundary_tree)) - 2 * Hour = Hour
   \<and> made (Run live_ctx steady (world_of (Some boundary_tree)))
       = [RemoveCall ''storage/temp/locked'', RemoveCall ''storage/temp/older'']
   \<and> tree_files ''storage/temp'' (disk (Run live_ctx steady (world_of (Some boundary_tree))))
       = [\<lparr>fpath = ''storage/temp/at'', mtime = Hour, unlink = None, reached = True\<rparr>,
          \<lparr>fpath = ''storage/temp/locked'', mtime = Hour - 1, unlink = Some (PathError EACCES), reached = True\<rparr>,
          \<lparr>fpath = ''storage/temp/sealed/hidden'', mtime = 0, unlink = None, reached = False\<rparr>]"
proof -
  have h1: "\<not> firstRun steady" by (simp add: steady_def)
  have h2: "\<not> IsNotExist (os_Stat (world_of (Some boundary_tree)))"
    by (simp add: run_eval boundary_tree_def)
  show ?thesis
    using h1 h2 sweep_boundary [OF h1 h2, of live_ctx]
    by (simp add: tempDir_def world_of_def tree_files_def boundary_tree_def Join_def Hour_def)
qed

text \<open>
  C4 as stated fails: a file a nanosecond older than the threshold, which the walk
  reaches but whose removal is refused, is still there after the sweep.
\<close>

theorem stale_file_survives_counterexample:
  "\<not> firstRun steady
   \<and> root (world_of (Some locked_tree)) = Some (Dir ''temp'' 492 0 None [File ''a'' 0 (Some (PathError EACCES))])
   \<and> (0::int) < now (world_of (Some locked_tree)) - 2 * Hour
   \<and> disk (Run live_ctx steady (world_of (Some locked_tree)))
       = Some (Dir ''temp'' 492 0 None [File ''a'' 0 (Some (PathError EACCES))])"
  by (simp add: run_eval locked_tree_def)













text \<open>
  C10: when the existence check meets an error other than not-exist, \<^verbatim>\<open>Run\<close> does not
  return at the check: it does exactly what it does in the same world when the check
  meets no error. On a first run it clears the flag and makes the recursive delete, and
  when that succeeds the recreate; in the steady state it runs the sweep, asks the system
  to remove exactly the stale files the walk reaches, and reports success with their
  counts.
\<close>

theorem other_stat_errors_pass_the_check:
  assumes "os_Stat w = Some e" and "\<not> IsNotExist (Some e)"
  shows "Run ctx t w = Run ctx t (w\<lparr>stat_answer := None\<rparr>)
     \<and> (if firstRun t
        then \<not> firstRun (task (Run ctx t w))
           \<and> (case os_RemoveAll (root w) of
                (Some e1, fs1) \<Rightarrow>
                  ret (Run ctx t w) = Some e1 \<and> disk (Run ctx t w) = fs1
                  \<and> made (Run ctx t w) = [RemoveAllCall (tempDir w)]
              | (None, fs1) \<Rightarrow>
                  made (Run ctx t w) = [RemoveAllCall (tempDir w), MkdirAllCall (tempDir w) 492]
                  \<and> (case mkdir_answer w of
                       Some e2 \<Rightarrow> ret (Run ctx t w) = Some e2 \<and> disk (Run ctx t w) = None
                     | None \<Rightarrow>
                         ret (Run ctx t w) = None
                         \<and> disk (Run ctx t w) = Some (Dir (tempDir w) (492 AND NOT (umask w)) (now w) None [])))
        else ret (Run ctx t w) = None \<and> task (Run ctx t w) = t
           \<and> made (Run ctx t w) =
               map (\<lambda>f. RemoveCall (fpath f))
                 (filter (\<lambda>f. reached f \<and> mtime f < now w - 2 * Hour) (tree_files (tempDir w) (root w)))
           \<and> tree_files (tempDir w) (disk (Run ctx t w)) =
               filter (\<lambda>f. \<not> (reached f \<and> mtime f < now w - 2 * Hour \<and> unlink f = None))
                 (tree_files (tempDir w) (root w))
           \<and> last (written (Run ctx t w)) =
               loop_success t
                 (length (filter (\<lambda>f. reached f \<and> mtime f < now w - 2 * Hour \<and> unlink f = None)
                    (tree_files (tempDir w) (root w))))
                 (length (filter (\<lambda>f. reached f \<and> mtime f < now w - 2 * Hour \<and> unlink f \<noteq> None)
                    (tree_files (tempDir w) (root w)))))"
proof -
  have ne: "\<not> IsNotExist (os_Stat w)"
    using assms by simp
  have td: "tempDir (w\<lparr>stat_answer := None\<rparr>) = tempDir w"
    by (simp add: tempDir_def)
  have tha: "twoHoursAgo (w\<lparr>stat_answer := None\<rparr>) = twoHoursAgo w"
    by (simp add: twoHoursAgo_def)
  have same: "Run ctx t w = Run ctx t (w\<lparr>stat_answer := None\<rparr>)"
    using assms
    by (auto simp: Run_def Let_def os_Stat_def IsNotExist_def td tha split: prod.splits option.splits)
  show ?thesis
  proof (cases "firstRun t")
    case True
    have clean: "fst (os_RemoveAll (root w)) = None \<Longrightarrow> snd (os_RemoveAll (root w)) = None"
      using removeAll_clean(1) by (cases "root w") (simp_all add: os_RemoveAll_def)
    have wipe: "\<not> firstRun (task (Run ctx t w))
           \<and> (case os_RemoveAll (root w) of
                (Some e1, fs1) \<Rightarrow>
                  ret (Run ctx t w) = Some e1 \<and> disk (Run ctx t w) = fs1
                  \<and> made (Run ctx t w) = [RemoveAllCall (tempDir w)]
              | (None, fs1) \<Rightarrow>
                  made (Run ctx t w) = [RemoveAllCall (tempDir w), MkdirAllCall (tempDir w) 492]
                  \<and> (case mkdir_answer w of
                       Some e2 \<Rightarrow> ret (Run ctx t w) = Some e2 \<and> disk (Run ctx t w) = None
                     | None \<Rightarrow>
                         ret (Run ctx t w) = None
                         \<and> disk (Run ctx t w) = Some (Dir (tempDir w) (492 AND NOT (umask w)) (now w) None [])))"
    proof (cases "os_RemoveAll (root w)")
      case (Pair err fs1)
      show ?thesis
      proof (cases err)
        case (Some e1)
        with Pair True ne show ?thesis by (simp add: Run_def Let_def)
      next
        case None
        with Pair clean have "fs1 = None" by simp
        with Pair None True ne show ?thesis
          by (cases "mkdir_answer w") (simp_all add: Run_def Let_def os_MkdirAll_def)
      qed
    qed
    with same True show ?thesis by simp
  next
    case False
    have th: "twoHoursAgo w = now w - 2 * Hour"
      by (simp add: twoHoursAgo_def Add_def)
    have s: "stale (twoHoursAgo w) = (\<lambda>f. reached f \<and> mtime f < now w - 2 * Hour)"
      by (simp add: stale_def th fun_eq_iff)
    have r: "removed (twoHoursAgo w) = (\<lambda>f. reached f \<and> mtime f < now w - 2 * Hour \<and> unlink f = None)"
      by (simp add: removed_def stale_def th fun_eq_iff)
    have r': "(\<lambda>f. \<not> removed (twoHoursAgo w) f)
        = (\<lambda>f. \<not> (reached f \<and> mtime f < now w - 2 * Hour \<and> unlink f = None))"
      by (simp add: removed_def stale_def th fun_eq_iff)
    have x: "refused (twoHoursAgo w) = (\<lambda>f. reached f \<and> mtime f < now w - 2 * Hour \<and> unlink f \<noteq> None)"
      by (simp add: refused_def stale_def th fun_eq_iff)
    from Run_sweep(5)[OF False ne, of ctx] obtain ws where
      "written (Run ctx t w) = ws @
        [loop_success t (length (filter (removed (twoHoursAgo w)) (tree_files (tempDir w) (root w))))
           (length (filter (refused (twoHoursAgo w)) (tree_files (tempDir w) (root w))))]"
      by blast
    then have l: "last (written (Run ctx t w)) =
        loop_success t
          (length (filter (\<lambda>f. reached f \<and> mtime f < now w - 2 * Hour \<and> unlink f = None)
             (tree_files (tempDir w) (root w))))
          (length (filter (\<lambda>f. reached f \<and> mtime f < now w - 2 * Hour \<and> unlink f \<noteq> None)
             (tree_files (tempDir w) (root w))))"
      by (simp add: r x)
    have m: "made (Run ctx t w) =
        map (\<lambda>f. RemoveCall (fpath f))
          (filter (\<lambda>f. reached f \<and> mtime f < now w - 2 * Hour) (tree_files (tempDir w) (root w)))"
      using Run_sweep(3)[OF False ne, of ctx] by (simp only: s)
    have d: "tree_files (tempDir w) (disk (Run ctx t w)) =
        filter (\<lambda>f. \<not> (reached f \<and> mtime f < now w - 2 * Hour \<and> unlink f = None))
          (tree_files (tempDir w) (root w))"
      using Run_sweep(4)[OF False ne, of ctx] by (simp only: r')
    show ?thesis
      using same False Run_sweep(1,2)[OF False ne, of ctx] l m d by simp
  qed
qed

theorem other_stat_errors_pass_the_check_witness:
  "os_Stat (denied_world (Some pair_tree)) = Some (PathError EACCES)
   \<and> \<not> IsNotExist (Some (PathError EACCES))
   \<and> made (Run live_ctx NewFileSessionTempCleanTask (denied_world (Some pair_tree)))
       = [RemoveAllCall ''storage/temp'', MkdirAllCall ''storage/temp'' 492]
   \<and> ret (Run live_ctx NewFileSessionTempCleanTask (denied_world (Some pair_tree))) = None
   \<and> disk (Run live_ctx NewFileSessionTempCleanTask (denied_world (Some pair_tree)))
       = Some (Dir ''storage/temp'' 492 (3 * Hour) None [])
   \<and> firstRun (task (Run live_ctx NewFileSessionTempCleanTask (denied_world (Some pair_tree)))) = False
   \<and> ret (Run live_ctx NewFileSessionTempCleanTask (denied_world (Some blocked_link))) = None
   \<and> disk (Run live_ctx NewFileSessionTempCleanTask (denied_world (Some blocked_link)))
       = Some (Dir ''storage/temp'' 492 (3 * Hour) None [])
   \<and> ret (Run live_ctx NewFileSessionTempCleanTask (denied_world (Some locked_tree)))
       = Some (PathError EACCES)
   \<and> made (Run live_ctx NewFileSessionTempCleanTask (denied_world (Some locked_tree)))
       = [RemoveAllCall ''storage/temp'']
   \<and> ret (Run live_ctx steady (denied_world (Some boundary_tree))) = None
   \<and> made (Run live_ctx steady (denied_world (Some boundary_tree)))
       = [RemoveCall ''storage/temp/locked'', RemoveCall ''storage/temp/older'']
   \<and> last (written (Run live_ctx steady (denied_world (Some boundary_tree)))) = loop_success steady 1 1
   \<and> Run live_ctx steady (denied_world (Some boundary_tree))
       = Run live_ctx steady (world_of (Some boundary_tree))"
proof -
  have h1: "os_Stat (denied_world fs) = Some (PathError EACCES)" for fs
    by (simp add: os_Stat_def denied_world_def)
  have h2: "\<not> IsNotExist (Some (PathError EACCES))"
    by (simp add: IsNotExist_def)
  have f: "firstRun NewFileSessionTempCleanTask" "\<not> firstRun steady"
    by (simp_all add: NewFileSessionTempCleanTask_def steady_def)
  have rm1: "os_RemoveAll (Some pair_tree) = (None, None)"
    by (simp add: pair_tree_def os_RemoveAll_def)
  have rm2: "os_RemoveAll (Some locked_tree) = (Some (PathError EACCES), Some locked_tree)"
    by (simp add: locked_tree_def os_RemoveAll_def)
  have env: "mkdir_answer (denied_world fs) = None" "umask (denied_world fs) = 18"
    "tempDir (denied_world fs) = ''storage/temp''" "now (denied_world fs) = 3 * Hour"
    "root (denied_world fs) = fs" for fs
    by (simp_all add: denied_world_def world_of_def tempDir_def)
  have A: "made (Run live_ctx NewFileSessionTempCleanTask (denied_world (Some pair_tree)))
       = [RemoveAllCall ''storage/temp'', MkdirAllCall ''storage/temp'' 492]
   \<and> ret (Run live_ctx NewFileSessionTempCleanTask (denied_world (Some pair_tree))) = None
   \<and> disk (Run live_ctx NewFileSessionTempCleanTask (denied_world (Some pair_tree)))
       = Some (Dir ''storage/temp'' 492 (3 * Hour) None [])
   \<and> firstRun (task (Run live_ctx NewFileSessionTempCleanTask (denied_world (Some pair_tree)))) = False"
    using other_stat_errors_pass_the_check [OF h1 h2, of live_ctx NewFileSessionTempCleanTask "Some pair_tree", THEN conjunct2]
    by (simp add: f rm1 env)
  have rm3: "os_RemoveAll (Some blocked_link) = (None, None)"
    by (simp add: blocked_link_def os_RemoveAll_def)
  have L: "ret (Run live_ctx NewFileSessionTempCleanTask (denied_world (Some blocked_link))) = None
   \<and> disk (Run live_ctx NewFileSessionTempCleanTask (denied_world (Some blocked_link)))
       = Some (Dir ''storage/temp'' 492 (3 * Hour) None [])"
    using other_stat_errors_pass_the_check [OF h1 h2, of live_ctx NewFileSessionTempCleanTask "Some blocked_link", THEN conjunct2]
    by (simp add: f rm3 env)
  have B: "ret (Run live_ctx NewFileSessionTempCleanTask (denied_world (Some locked_tree)))
       = Some (PathError EACCES)
   \<and> made (Run live_ctx NewFileSessionTempCleanTask (denied_world (Some locked_tree)))
       = [RemoveAllCall ''storage/temp'']"
    using other_stat_errors_pass_the_check [OF h1 h2, of live_ctx NewFileSessionTempCleanTask "Some locked_tree", THEN conjunct2]
    by (simp add: f rm2 env)
  have w0: "(denied_world (Some boundary_tree))\<lparr>stat_answer := None\<rparr> = world_of (Some boundary_tree)"
    by (simp add: denied_world_def world_of_def stat_of_def boundary_tree_def)
  have C: "ret (Run live_ctx steady (denied_world (Some boundary_tree))) = None
   \<and> made (Run live_ctx steady (denied_world (Some boundary_tree)))
       = [RemoveCall ''storage/temp/locked'', RemoveCall ''storage/temp/older'']
   \<and> last (written (Run live_ctx steady (denied_world (Some boundary_tree)))) = loop_success steady 1 1"
    using other_stat_errors_pass_the_check [OF h1 h2, of live_ctx steady "Some boundary_tree", THEN conjunct2]
    by (simp add: f env tree_files_def boundary_tree_def Join_def Hour_def loop_success_def)
  have D: "Run live_ctx steady (denied_world (Some boundary_tree))
       = Run live_ctx steady (world_of (Some boundary_tree))"
    using other_stat_errors_pass_the_check [OF h1 h2, of live_ctx steady "Some boundary_tree", THEN conjunct1]
    by (simp only: w0)
  show ?thesis using h1 h2 A L B C D by blast
qed

end
